theory Spec2Isabelle
  imports Complex_Main "HOL-Library.AList"
begin

section \<open>Values and errors\<close>

text \<open>
  The program handles decoded JSON: \<open>None\<close>, booleans, numbers, strings, lists and
  dictionaries. A dictionary keeps its keys in insertion order, so it is an association
  list; \<open>map_of\<close> looks a key up and \<open>AList.update\<close> stores a value (in place when the key
  exists, at the end otherwise), as Python's \<open>d[k] = v\<close> does. A string is a list of
  characters; \<open>char\<close> has 256 values, so the model covers the strings of code points
  below 256, where \<open>\d\<close> is exactly \<open>0\<close> to \<open>9\<close>.
\<close>

datatype json =
    JNull
  | JBool bool
  | JInt int
  | JFloat real
  | JStr string
  | JArr "json list"
  | JObj "(string \<times> json) list"

type_synonym dict = "(string \<times> json) list"

text \<open>The exceptions the code can raise. \<open>Exception\<close> is the wrapper of \<open>get_url\<close>.\<close>

datatype error = KeyError | TypeError | ValueError | Exception

text \<open>Python's truth value of an object, as \<open>if item\<close> tests it.\<close>

fun truthy :: "json \<Rightarrow> bool" where
  "truthy JNull = False"
| "truthy (JBool b) = b"
| "truthy (JInt i) = (i \<noteq> 0)"
| "truthy (JFloat r) = (r \<noteq> 0)"
| "truthy (JStr s) = (s \<noteq> [])"
| "truthy (JArr xs) = (xs \<noteq> [])"
| "truthy (JObj kvs) = (kvs \<noteq> [])"

text \<open>\<open>x[k]\<close> on a dictionary: the value, or \<open>KeyError\<close>.\<close>

definition dict_get :: "dict \<Rightarrow> string \<Rightarrow> error + json" where
  "dict_get d k = (case map_of d k of None \<Rightarrow> Inl KeyError | Some v \<Rightarrow> Inr v)"

text \<open>
  \<open>v[k]\<close> with a string key on any value: a dictionary looks the key up, a list or a
  string refuses a string index and the other values are not subscriptable
  (\<open>TypeError\<close> both times).
\<close>

fun subscript :: "json \<Rightarrow> string \<Rightarrow> error + json" where
  "subscript (JObj d) k = dict_get d k"
| "subscript _ k = Inl TypeError"

section \<open>Regular expressions\<close>

text \<open>
  The part of Python's \<open>re\<close> that the program and \<open>datetime.strptime\<close> use: single
  characters from a class, literal text, a greedy star over a class (\<open>.*\<close>), sequence,
  alternation,
  numbered groups, lookahead, a one-character lookbehind and \<open>$\<close>. A match state is the
  text before the position (reversed), the text after it and the groups matched so
  far. \<open>rmatch\<close> lists the states a backtracking matcher reaches, in the order in
  which it tries them: the first one is the match \<open>re\<close> reports.
\<close>

datatype cls = AnyOf "char list" | NoneOf "char list"

fun in_cls :: "cls \<Rightarrow> char \<Rightarrow> bool" where
  "in_cls (AnyOf cs) c = (c \<in> set cs)"
| "in_cls (NoneOf cs) c = (c \<notin> set cs)"

datatype rx =
    One cls
  | Str string
  | Many cls
  | Seq rx rx
  | Alt rx rx
  | Group nat rx
  | Ahead rx
  | Behind cls
  | Eos

type_synonym groups = "nat \<rightharpoonup> string"
type_synonym mstate = "string \<times> string \<times> groups"

definition newline :: char where
  "newline = CHR 0x0A"

text \<open>A greedy star: the longest run first, then every shorter one.\<close>

fun many :: "cls \<Rightarrow> string \<Rightarrow> string \<Rightarrow> (string \<times> string) list" where
  "many k pre [] = [(pre, [])]"
| "many k pre (c # cs) =
     (if in_cls k c then many k (c # pre) cs @ [(pre, c # cs)] else [(pre, c # cs)])"

fun rmatch :: "rx \<Rightarrow> mstate \<Rightarrow> mstate list" where
  "rmatch (One k) (pre, suf, g) =
     (case suf of [] \<Rightarrow> [] | c # cs \<Rightarrow> if in_cls k c then [(c # pre, cs, g)] else [])"
| "rmatch (Str w) (pre, suf, g) =
     (if take (length w) suf = w then [(rev w @ pre, drop (length w) suf, g)] else [])"
| "rmatch (Many k) (pre, suf, g) = map (\<lambda>(p, s). (p, s, g)) (many k pre suf)"
| "rmatch (Seq a b) st = concat (map (rmatch b) (rmatch a st))"
| "rmatch (Alt a b) st = rmatch a st @ rmatch b st"
| "rmatch (Group n a) (pre, suf, g) =
     map (\<lambda>(p, s, g'). (p, s, g'(n \<mapsto> take (length suf - length s) suf)))
       (rmatch a (pre, suf, g))"
| "rmatch (Ahead a) st = (if rmatch a st = [] then [] else [st])"
| "rmatch (Behind k) (pre, suf, g) =
     (case pre of [] \<Rightarrow> [] | c # _ \<Rightarrow> if in_cls k c then [(pre, suf, g)] else [])"
| "rmatch Eos (pre, suf, g) = (if suf = [] \<or> suf = [newline] then [(pre, suf, g)] else [])"

text \<open>\<open>re.match\<close>: the first match at the start of the string.\<close>

definition re_match :: "rx \<Rightarrow> string \<Rightarrow> mstate option" where
  "re_match r s = (case rmatch r ([], s, Map.empty) of [] \<Rightarrow> None | st # _ \<Rightarrow> Some st)"

text \<open>\<open>re.search\<close>: the first match at the leftmost position that has one.\<close>

fun search_from :: "rx \<Rightarrow> string \<Rightarrow> string \<Rightarrow> mstate option" where
  "search_from r pre [] =
     (case rmatch r (pre, [], Map.empty) of [] \<Rightarrow> None | st # _ \<Rightarrow> Some st)"
| "search_from r pre (c # cs) =
     (case rmatch r (pre, c # cs, Map.empty) of
        [] \<Rightarrow> search_from r (c # pre) cs
      | st # _ \<Rightarrow> Some st)"

definition re_search :: "rx \<Rightarrow> string \<Rightarrow> mstate option" where
  "re_search r s = search_from r [] s"

text \<open>
  \<open>re.findall\<close> with a pattern of one group lists that group for every match, left to
  right. The program only tests the list for emptiness and takes its first element,
  the group of the leftmost match: \<open>findall_first\<close> is that element, \<open>None\<close> for the
  empty list.
\<close>

definition group :: "groups \<Rightarrow> nat \<Rightarrow> string" where
  "group g n = (case g n of None \<Rightarrow> [] | Some s \<Rightarrow> s)"

definition findall_first :: "rx \<Rightarrow> string \<Rightarrow> string option" where
  "findall_first r s =
     (case re_search r s of None \<Rightarrow> None | Some (pre, suf, g) \<Rightarrow> Some (group g 1))"

section \<open>\<open>datetime.strptime\<close> and \<open>isoformat\<close>\<close>

text \<open>
  \<open>datetime.strptime(item, "%Y-%m-%dT%H:%M:%SZ")\<close> is library code. It turns the format
  into the regular expression
  \<^verbatim>\<open>(?P<Y>\d\d\d\d)-(?P<m>1[0-2]|0[1-9]|[1-9])-(?P<d>3[0-1]|[1-2]\d|0[1-9]|[1-9]| [1-9])\<close>
  \<^verbatim>\<open>T(?P<H>2[0-3]|[0-1]\d|\d):(?P<M>[0-5]\d|\d):(?P<S>6[0-1]|[0-5]\d|\d)Z\<close>
  compiled with \<open>IGNORECASE\<close> (so \<open>T\<close> and \<open>Z\<close> match in either case), matches it at the
  start of the string, refuses a match that leaves text unconverted, reads the six
  groups with \<open>int\<close> and builds the \<open>datetime\<close>, which checks the ranges. Every failure
  is a \<open>ValueError\<close>. The groups are numbered 1 to 6 here.
\<close>

definition digit :: cls where
  "digit = AnyOf ''0123456789''"

definition rx_Y :: rx where
  "rx_Y = Seq (One digit) (Seq (One digit) (Seq (One digit) (One digit)))"

definition rx_m :: rx where
  "rx_m = Alt (Seq (Str ''1'') (One (AnyOf ''012'')))
         (Alt (Seq (Str ''0'') (One (AnyOf ''123456789'')))
              (One (AnyOf ''123456789'')))"

definition rx_d :: rx where
  "rx_d = Alt (Seq (Str ''3'') (One (AnyOf ''01'')))
         (Alt (Seq (One (AnyOf ''12'')) (One digit))
         (Alt (Seq (Str ''0'') (One (AnyOf ''123456789'')))
         (Alt (One (AnyOf ''123456789''))
              (Seq (Str '' '') (One (AnyOf ''123456789''))))))"

definition rx_H :: rx where
  "rx_H = Alt (Seq (Str ''2'') (One (AnyOf ''0123'')))
         (Alt (Seq (One (AnyOf ''01'')) (One digit))
              (One digit))"

definition rx_M :: rx where
  "rx_M = Alt (Seq (One (AnyOf ''012345'')) (One digit)) (One digit)"

definition rx_S :: rx where
  "rx_S = Alt (Seq (Str ''6'') (One (AnyOf ''01'')))
         (Alt (Seq (One (AnyOf ''012345'')) (One digit))
              (One digit))"

definition strptime_regex :: rx where
  "strptime_regex =
     Seq (Group 1 rx_Y) (Seq (Str ''-'')
    (Seq (Group 2 rx_m) (Seq (Str ''-'')
    (Seq (Group 3 rx_d) (Seq (One (AnyOf ''Tt''))
    (Seq (Group 4 rx_H) (Seq (Str '':'')
    (Seq (Group 5 rx_M) (Seq (Str '':'')
    (Seq (Group 6 rx_S) (One (AnyOf ''Zz''))))))))))))"

text \<open>
  \<open>int\<close> on the text of a group: decimal digits, after the leading space that the
  day's last alternative lets through.
\<close>

definition digit_val :: "char \<Rightarrow> nat" where
  "digit_val c = of_char c - 48"

definition py_int :: "string \<Rightarrow> nat" where
  "py_int s = foldl (\<lambda>n c. 10 * n + digit_val c) 0 (dropWhile (\<lambda>c. c = CHR '' '') s)"

record datetime =
  year :: nat
  month :: nat
  day :: nat
  hour :: nat
  minute :: nat
  second :: nat

definition is_leap :: "nat \<Rightarrow> bool" where
  "is_leap y = (y mod 4 = 0 \<and> (y mod 100 \<noteq> 0 \<or> y mod 400 = 0))"

definition days_in_month :: "nat \<Rightarrow> nat \<Rightarrow> nat" where
  "days_in_month y m =
     (if m = 2 then (if is_leap y then 29 else 28)
      else if m = 4 \<or> m = 6 \<or> m = 9 \<or> m = 11 then 30 else 31)"

text \<open>The range checks of the \<open>datetime\<close> constructor.\<close>

definition valid_datetime :: "datetime \<Rightarrow> bool" where
  "valid_datetime d =
     (1 \<le> year d \<and> year d \<le> 9999 \<and> 1 \<le> month d \<and> month d \<le> 12 \<and>
      1 \<le> day d \<and> day d \<le> days_in_month (year d) (month d) \<and>
      hour d \<le> 23 \<and> minute d \<le> 59 \<and> second d \<le> 59)"

definition datetime_new :: "nat \<Rightarrow> nat \<Rightarrow> nat \<Rightarrow> nat \<Rightarrow> nat \<Rightarrow> nat \<Rightarrow> error + datetime" where
  "datetime_new y mo d h mi s =
     (let dt = \<lparr>year = y, month = mo, day = d, hour = h, minute = mi, second = s\<rparr>
      in if valid_datetime dt then Inr dt else Inl ValueError)"

definition strptime :: "string \<Rightarrow> error + datetime" where
  "strptime s =
     (case re_match strptime_regex s of
        None \<Rightarrow> Inl ValueError
      | Some (pre, suf, g) \<Rightarrow>
          if suf \<noteq> [] then Inl ValueError
          else datetime_new (py_int (group g 1)) (py_int (group g 2)) (py_int (group g 3))
                 (py_int (group g 4)) (py_int (group g 5)) (py_int (group g 6)))"

text \<open>
  \<open>isoformat\<close> of a \<open>datetime\<close> without microseconds and without time zone:
  \<open>%04d-%02d-%02dT%02d:%02d:%02d\<close>. \<open>dec w n\<close> is \<open>n\<close> in \<open>w\<close> decimal digits, padded with
  zeros; the fields of a \<open>datetime\<close> never need more.
\<close>

definition digit_char :: "nat \<Rightarrow> char" where
  "digit_char n = ''0123456789'' ! (n mod 10)"

fun dec :: "nat \<Rightarrow> nat \<Rightarrow> string" where
  "dec 0 n = []"
| "dec (Suc w) n = dec w (n div 10) @ [digit_char n]"

definition isoformat :: "datetime \<Rightarrow> string" where
  "isoformat d =
     dec 4 (year d) @ ''-'' @ dec 2 (month d) @ ''-'' @ dec 2 (day d) @ ''T'' @
     dec 2 (hour d) @ '':'' @ dec 2 (minute d) @ '':'' @ dec 2 (second d)"

section \<open>The field normalizers (\<open>helpers.py\<close>)\<close>

text \<open>Sequencing of calls that may raise: the first error ends the evaluation.\<close>

definition and_then :: "error + 'a \<Rightarrow> ('a \<Rightarrow> error + 'b) \<Rightarrow> error + 'b" where
  "and_then m f = (case m of Inl e \<Rightarrow> Inl e | Inr v \<Rightarrow> f v)"

fun map_err :: "('a \<Rightarrow> error + 'b) \<Rightarrow> 'a list \<Rightarrow> error + 'b list" where
  "map_err f [] = Inr []"
| "map_err f (x # xs) =
     and_then (f x) (\<lambda>y. and_then (map_err f xs) (\<lambda>ys. Inr (y # ys)))"

text \<open>
  \<open>is_datetime\<close>: a false value (\<open>None\<close>, the empty string, but also \<open>False\<close>, zero and the
  empty containers) gives \<open>"N/A"\<close>; \<open>strptime\<close> refuses a true value that is not a string
  with \<open>TypeError\<close>; nothing catches the \<open>ValueError\<close> of a string that does not parse.
\<close>

definition is_datetime :: "json \<Rightarrow> error + json" where
  "is_datetime item =
     (if truthy item \<and> item \<noteq> JNull then
        (case item of
           JStr s \<Rightarrow>
             and_then (strptime s) (\<lambda>date.
               if year date > 1999 then Inr (JStr (isoformat date))
               else Inr (JStr ''Never''))
         | _ \<Rightarrow> Inl TypeError)
      else Inr (JStr ''N/A''))"

text \<open>
  \<open>item_to_string\<close>: \<open>is True\<close> and \<open>is False\<close> hold of the two booleans only. A string
  goes to \<open>is_datetime\<close>, and comes back unchanged when that raises \<open>ValueError\<close>.
\<close>

definition item_to_string :: "json \<Rightarrow> error + json" where
  "item_to_string item =
     (if item = JNull then Inr (JStr ''N/A'')
      else if item = JBool True then Inr (JStr ''Yes'')
      else if item = JBool False then Inr (JStr ''No'')
      else (case item of
              JStr s \<Rightarrow>
                (case is_datetime item of
                   Inl ValueError \<Rightarrow> Inr item
                 | Inl e \<Rightarrow> Inl e
                 | Inr v \<Rightarrow> Inr v)
            | _ \<Rightarrow> Inr item))"

text \<open>\<open>re.search\<close> and \<open>re.findall\<close> raise \<open>TypeError\<close> on anything but a string.\<close>

definition is_external :: "json \<Rightarrow> error + json" where
  "is_external item =
     (case item of
        JStr s \<Rightarrow> item_to_string (JBool (re_search (Str ''#EXT#'') s \<noteq> None))
      | _ \<Rightarrow> Inl TypeError)"

definition any_char :: cls where
  "any_char = NoneOf [newline]"

definition external_domain_regex :: rx where
  "external_domain_regex =
     Seq (Behind (AnyOf ''_'')) (Seq (Group 1 (Many any_char)) (Ahead (Str ''#EXT#'')))"

definition is_external_domain :: "json \<Rightarrow> error + json" where
  "is_external_domain item =
     (case item of
        JStr s \<Rightarrow>
          (case findall_first external_domain_regex s of
             Some x \<Rightarrow> Inr (JStr x)
           | None \<Rightarrow> Inr (JStr ''N/A''))
      | _ \<Rightarrow> Inl TypeError)"

definition tenant_domain_regex :: rx where
  "tenant_domain_regex =
     Seq (Behind (AnyOf ''@'')) (Seq (Group 1 (Many any_char)) (Ahead Eos))"

definition get_tenant_domain :: "json \<Rightarrow> error + json" where
  "get_tenant_domain item =
     (case item of
        JStr s \<Rightarrow>
          (case findall_first tenant_domain_regex s of
             Some x \<Rightarrow> Inr (JStr x)
           | None \<Rightarrow> Inr (JStr ''N/A''))
      | _ \<Rightarrow> Inl TypeError)"

text \<open>
  \<open>get_mfa_methods\<close> joins \<open>set(item)\<close> with commas. The order in which a set is
  iterated is not fixed by the language, so it is a parameter: \<open>ord xs\<close> lists the
  elements of \<open>set(xs)\<close> in the order of iteration. A set of a list, of the characters of
  a string or of the keys of a dictionary can be built; \<open>join\<close> needs strings
  (\<open>TypeError\<close> otherwise, as for a number or \<open>True\<close>, which cannot be iterated).
\<close>

fun join :: "string \<Rightarrow> string list \<Rightarrow> string" where
  "join sep [] = []"
| "join sep [x] = x"
| "join sep (x # y # ys) = x @ sep @ join sep (y # ys)"

fun the_str :: "json \<Rightarrow> error + string" where
  "the_str (JStr s) = Inr s"
| "the_str _ = Inl TypeError"

definition get_mfa_methods :: "(string list \<Rightarrow> string list) \<Rightarrow> json \<Rightarrow> error + json" where
  "get_mfa_methods ord item =
     (if truthy item then
        (case item of
           JArr xs \<Rightarrow> and_then (map_err the_str xs) (\<lambda>ss. Inr (JStr (join '','' (ord ss))))
         | JStr s \<Rightarrow> Inr (JStr (join '','' (ord (map (\<lambda>c. [c]) s))))
         | JObj d \<Rightarrow> Inr (JStr (join '','' (ord (map fst d))))
         | _ \<Rightarrow> Inl TypeError)
      else Inr (JStr ''No AAD MFA configured''))"

section \<open>The report row builder (\<open>xlsx_dict_prep\<close>)\<close>

text \<open>
  A dictionary display evaluates its values from the first to the last, so the first
  missing key or failing normalizer decides the error.
\<close>

definition xlsx_row :: "(string list \<Rightarrow> string list) \<Rightarrow> dict \<Rightarrow> error + dict" where
  "xlsx_row ord x =
     and_then (dict_get x ''id'') (\<lambda>c1.
     and_then (and_then (dict_get x ''accountEnabled'') item_to_string) (\<lambda>c2.
     and_then (dict_get x ''userDisplayName'') (\<lambda>c3.
     and_then (dict_get x ''userPrincipalName'') (\<lambda>c4.
     and_then (and_then (dict_get x ''userPrincipalName'') is_external) (\<lambda>c5.
     and_then (and_then (dict_get x ''userPrincipalName'') is_external_domain) (\<lambda>c6.
     and_then (and_then (dict_get x ''externalUserState'') item_to_string) (\<lambda>c7.
     and_then (and_then (dict_get x ''externalUserStateChangeDateTime'') item_to_string) (\<lambda>c8.
     and_then (and_then (dict_get x ''userPrincipalName'') get_tenant_domain) (\<lambda>c9.
     and_then (and_then (dict_get x ''methodsRegistered'') (get_mfa_methods ord)) (\<lambda>c10.
     and_then (and_then (dict_get x ''onPremisesSyncEnabled'') item_to_string) (\<lambda>c11.
     and_then (and_then (and_then (dict_get x ''signInActivity'')
                 (\<lambda>a. subscript a ''lastSignInDateTime'')) is_datetime) (\<lambda>c12.
     and_then (and_then (and_then (dict_get x ''signInActivity'')
                 (\<lambda>a. subscript a ''lastNonInteractiveSignInDateTime'')) is_datetime) (\<lambda>c13.
     Inr [(''userId'', c1),
          (''isEnabled'', c2),
          (''userDisplayName'', c3),
          (''userPrincipalName'', c4),
          (''isExternal'', c5),
          (''externalDomain'', c6),
          (''externalUserState'', c7),
          (''externalUserStateLastChangeUTC'', c8),
          (''tenantDomain'', c9),
          (''methodsRegistered'', c10),
          (''onPremisesSyncEnabled'', c11),
          (''lastInteractiveSignInUTC'', c12),
          (''lastNonInteractiveSignInUTC'', c13)])))))))))))))"


section \<open>The fetcher (\<open>get_url\<close>, \<open>get_aad_users\<close>)\<close>





section \<open>The merge (\<open>main\<close>)\<close>

text \<open>
  \<open>{**a, **b}\<close> starts from \<open>a\<close> and stores the items of \<open>b\<close> one after the other. The list
  comprehension runs over the keys of the primary dictionary; a key that the secondary
  one lacks raises \<open>KeyError\<close>.
\<close>

definition merge_dicts :: "dict \<Rightarrow> dict \<Rightarrow> dict" where
  "merge_dicts a b = fold (\<lambda>(k, v) d. AList.update k v d) b a"

definition dict_lookup :: "('k \<times> 'v) list \<Rightarrow> 'k \<Rightarrow> error + 'v" where
  "dict_lookup d k = (case map_of d k of None \<Rightarrow> Inl KeyError | Some v \<Rightarrow> Inr v)"

definition user_details_merged ::
  "('k \<times> dict) list \<Rightarrow> ('k \<times> dict) list \<Rightarrow> error + dict list" where
  "user_details_merged auth_user_details aad_users_details =
     map_err (\<lambda>user_id.
        and_then (dict_lookup auth_user_details user_id) (\<lambda>a.
        and_then (dict_lookup aad_users_details user_id) (\<lambda>b.
        Inr (merge_dicts a b))))
       (map fst auth_user_details)"

section \<open>Timestamp texts\<close>

text \<open>
  Two descriptions of timestamp texts, independent of the matcher, for stating what the
  timestamp rule accepts. A well-formed timestamp is \<open>YYYY-MM-DDTHH:MM:SSZ\<close> for a date and
  time that exists. The texts that \<open>strptime\<close> accepts with this format are more: month,
  day, hour, minute and second may be written without the leading zero (the day also
  with a space in its place), and \<open>T\<close> and \<open>Z\<close> may be lower-case.
\<close>

definition well_formed_timestamp :: "string \<Rightarrow> bool" where
  "well_formed_timestamp s = (\<exists>d. valid_datetime d \<and> s = isoformat d @ ''Z'')"

definition num_texts :: "nat \<Rightarrow> string list" where
  "num_texts v = (if v \<le> 9 then [dec 2 v, dec 1 v] else [dec 2 v])"

definition day_texts :: "nat \<Rightarrow> string list" where
  "day_texts v = (if v \<le> 9 then [dec 2 v, dec 1 v, '' '' @ dec 1 v] else [dec 2 v])"

definition lenient_timestamp :: "string \<Rightarrow> bool" where
  "lenient_timestamp s =
     (\<exists>d wm wd wh wmi ws t z.
        valid_datetime d \<and>
        wm \<in> set (num_texts (month d)) \<and> wd \<in> set (day_texts (day d)) \<and>
        wh \<in> set (num_texts (hour d)) \<and> wmi \<in> set (num_texts (minute d)) \<and>
        ws \<in> set (num_texts (second d)) \<and>
        t \<in> set ''Tt'' \<and> z \<in> set ''Zz'' \<and>
        s = dec 4 (year d) @ ''-'' @ wm @ ''-'' @ wd @ [t] @ wh @ '':'' @ wmi @ '':'' @ ws @ [z])"

section \<open>Properties of the field normalizers\<close>

lemma strptime_error: "strptime s = Inl e \<Longrightarrow> e = ValueError"
  by (auto simp: strptime_def datetime_new_def Let_def split: option.splits if_splits prod.splits)

lemma strptime_Nil: "strptime [] = Inl ValueError"
  by (simp add: strptime_def re_match_def strptime_regex_def rx_Y_def)

lemma is_datetime_str:
  "s \<noteq> [] \<Longrightarrow> is_datetime (JStr s) =
     (case strptime s of Inl e \<Rightarrow> Inl ValueError
      | Inr d \<Rightarrow> Inr (JStr (if 1999 < year d then isoformat d else ''Never'')))"
  by (auto simp: is_datetime_def and_then_def split: sum.splits dest: strptime_error)

lemma strptime_example:
  "strptime ''2023-05-01T12:00:00Z'' =
     Inr \<lparr>year = 2023, month = 5, day = 1, hour = 12, minute = 0, second = 0\<rparr>"
  by code_simp

lemma strptime_hello: "strptime ''hello'' = Inl ValueError"
  by code_simp

lemma isoformat_example:
  "isoformat \<lparr>year = 2023, month = 5, day = 1, hour = 12, minute = 0, second = 0\<rparr> =
     ''2023-05-01T12:00:00''"
  by code_simp

subsection \<open>\<open>item_to_string\<close>\<close>

text \<open>
  C10: for the empty string \<open>item_to_string\<close> returns \<open>"N/A"\<close>, not the empty string: the
  string goes to \<open>is_datetime\<close>, which takes it for an absent value and returns \<open>"N/A"\<close>
  instead of raising, so the branch that hands a string back unchanged is not taken.
\<close>

theorem item_to_string_empty:
  "item_to_string (JStr []) = Inr (JStr ''N/A'') \<and> is_datetime (JStr []) = Inr (JStr ''N/A'')"
  by (simp add: item_to_string_def is_datetime_def)

text \<open>
  C8, as amended: \<open>item_to_string\<close> maps \<open>None\<close> to \<open>"N/A"\<close>, \<open>True\<close> to \<open>"Yes"\<close> and \<open>False\<close>
  to \<open>"No"\<close>; a string that parses as a timestamp gets the result of \<open>is_datetime\<close>
  (\<open>"Never"\<close> or the ISO form); the empty string becomes \<open>"N/A"\<close>; a non-empty string that
  does not parse and every value that is neither \<open>None\<close>, a boolean nor a string is
  returned unchanged.
\<close>

theorem item_to_string_cases:
  "item_to_string JNull = Inr (JStr ''N/A'') \<and>
   item_to_string (JBool True) = Inr (JStr ''Yes'') \<and>
   item_to_string (JBool False) = Inr (JStr ''No'') \<and>
   (strptime s = Inr d \<longrightarrow>
      item_to_string (JStr s) = is_datetime (JStr s) \<and>
      is_datetime (JStr s) = Inr (JStr (if 1999 < year d then isoformat d else ''Never''))) \<and>
   item_to_string (JStr []) = Inr (JStr ''N/A'') \<and>
   (t \<noteq> [] \<and> strptime t = Inl e \<longrightarrow> item_to_string (JStr t) = Inr (JStr t)) \<and>
   (v \<noteq> JNull \<and> (\<forall>b. v \<noteq> JBool b) \<and> (\<forall>u. v \<noteq> JStr u) \<longrightarrow> item_to_string v = Inr v)"
proof -
  have parsed: "item_to_string (JStr s) = is_datetime (JStr s) \<and>
      is_datetime (JStr s) = Inr (JStr (if 1999 < year d then isoformat d else ''Never''))"
    if "strptime s = Inr d"
  proof -
    from that have "s \<noteq> []" using strptime_Nil by auto
    with that show ?thesis
      by (simp add: is_datetime_str item_to_string_def)
  qed
  have unparsed: "item_to_string (JStr t) = Inr (JStr t)" if "t \<noteq> []" "strptime t = Inl e"
    using that by (simp add: is_datetime_str item_to_string_def)
  have other: "item_to_string v = Inr v"
    if "v \<noteq> JNull" "\<forall>b. v \<noteq> JBool b" "\<forall>u. v \<noteq> JStr u"
    using that by (cases v) (auto simp: item_to_string_def)
  show ?thesis
    using parsed unparsed other by (simp add: item_to_string_def is_datetime_def)
qed

theorem item_to_string_cases_witness:
  "item_to_string (JStr ''2023-05-01T12:00:00Z'') = Inr (JStr ''2023-05-01T12:00:00'') \<and>
   item_to_string (JStr ''hello'') = Inr (JStr ''hello'') \<and>
   item_to_string (JInt 5) = Inr (JInt 5)"
  using item_to_string_cases [of "''2023-05-01T12:00:00Z''"
      "\<lparr>year = 2023, month = 5, day = 1, hour = 12, minute = 0, second = 0\<rparr>"
      "''hello''" ValueError "JInt 5"]
    strptime_example strptime_hello isoformat_example
  by simp

text \<open>
  The claim as written fails at the empty string: it does not parse as a timestamp,
  and it is not returned unchanged.
\<close>

theorem item_to_string_empty_changed:
  "strptime [] = Inl ValueError \<and> item_to_string (JStr []) \<noteq> Inr (JStr [])"
  by (simp add: strptime_Nil item_to_string_def is_datetime_def)

section \<open>Properties of the merge\<close>

lemma map_err_Inr_iff:
  "map_err f xs = Inr ys \<longleftrightarrow> list_all2 (\<lambda>x y. f x = Inr y) xs ys"
proof (induction xs arbitrary: ys)
  case Nil
  then show ?case by auto
next
  case (Cons x xs)
  show ?case
  proof (cases "f x")
    case (Inl e)
    then show ?thesis by (auto simp: and_then_def list_all2_Cons1)
  next
    case fx: (Inr y)
    show ?thesis
    proof (cases "map_err f xs")
      case (Inl e)
      with fx Cons.IH show ?thesis
        by (auto simp: and_then_def list_all2_Cons1)
    next
      case (Inr zs)
      with fx Cons.IH show ?thesis
        by (auto simp: and_then_def list_all2_Cons1)
    qed
  qed
qed

lemma map_err_total:
  "(\<And>x. x \<in> set xs \<Longrightarrow> \<exists>y. f x = Inr y) \<Longrightarrow> \<exists>ys. map_err f xs = Inr ys"
proof (induction xs)
  case Nil
  then show ?case by simp
next
  case (Cons x xs)
  then obtain y ys where "f x = Inr y" "map_err f xs = Inr ys"
    by (meson list.set_intros)
  then show ?case by (simp add: and_then_def)
qed

lemma map_err_Inl:
  "map_err f xs = Inl e \<Longrightarrow> \<exists>x\<in>set xs. f x = Inl e"
  by (induction xs arbitrary: e) (auto simp: and_then_def split: sum.splits)

lemma map_err_fails:
  "x \<in> set xs \<Longrightarrow> f x = Inl e \<Longrightarrow> \<exists>e'. map_err f xs = Inl e'"
  by (induction xs) (auto simp: and_then_def split: sum.splits)

lemma map_of_fold_update:
  "distinct (map fst b) \<Longrightarrow>
     map_of (fold (\<lambda>(k, v) d. AList.update k v d) b a) = map_of a ++ map_of b"
proof (induction b arbitrary: a)
  case Nil
  then show ?case by simp
next
  case (Cons kv b)
  obtain k v where kv: "kv = (k, v)" by (cases kv)
  from Cons.prems kv have "map_of b k = None" and d: "distinct (map fst b)"
    by (auto simp: map_of_eq_None_iff)
  then show ?case
    unfolding kv
    by (auto simp: Cons.IH update_conv' map_add_def fun_eq_iff split: option.splits)
qed

lemma merge_dicts_map_of:
  "distinct (map fst b) \<Longrightarrow> map_of (merge_dicts a b) = map_of a ++ map_of b"
  by (simp add: merge_dicts_def map_of_fold_update)

lemma distinct_fold_update:
  "distinct (map fst a) \<Longrightarrow> distinct (map fst (fold (\<lambda>(k, v) d. AList.update k v d) b a))"
  by (induction b arbitrary: a) (auto simp: distinct_update)

lemma merge_dicts_distinct:
  "distinct (map fst a) \<Longrightarrow> distinct (map fst (merge_dicts a b))"
  by (simp add: merge_dicts_def distinct_fold_update)

lemma merged_one:
  "(and_then (dict_lookup A k) (\<lambda>a. and_then (dict_lookup B k) (\<lambda>b. Inr (merge_dicts a b))) = Inr r)
     \<longleftrightarrow> (\<exists>a b. map_of A k = Some a \<and> map_of B k = Some b \<and> r = merge_dicts a b)"
  by (auto simp: and_then_def dict_lookup_def split: option.splits)

lemma merged_one_error:
  "and_then (dict_lookup A k) (\<lambda>a. and_then (dict_lookup B k) (\<lambda>b. Inr (merge_dicts a b))) = Inl e
     \<Longrightarrow> e = KeyError"
  by (auto simp: and_then_def dict_lookup_def split: option.splits)

text \<open>
  C1: for a primary mapping \<open>A\<close> and a secondary mapping \<open>B\<close> with the keys of \<open>A\<close> among
  those of \<open>B\<close>, the merge returns \<open>|A|\<close> records, the \<open>i\<close>-th for the \<open>i\<close>-th key of \<open>A\<close>: the
  record of \<open>A\<close> updated with the record of \<open>B\<close> for that key, so that it holds the fields
  of both and the value of \<open>B\<close> where both have the field. When a key of \<open>A\<close> is missing
  from \<open>B\<close> the merge raises \<open>KeyError\<close>. (A dictionary has no key twice: the keys of \<open>A\<close>
  and of every record of \<open>B\<close> are distinct.)
\<close>

theorem user_details_merged_spec:
  "(distinct (map fst A) \<and> fst ` set A \<subseteq> fst ` set B \<and>
    (\<forall>b\<in>snd ` set B. distinct (map fst b)) \<longrightarrow>
      (\<exists>rs. user_details_merged A B = Inr rs \<and> length rs = length A \<and>
         (\<forall>i<length A. \<exists>b. map_of B (fst (A ! i)) = Some b \<and>
             rs ! i = merge_dicts (snd (A ! i)) b \<and>
             map_of (rs ! i) = map_of (snd (A ! i)) ++ map_of b))) \<and>
   ((\<exists>k\<in>fst ` set A. k \<notin> fst ` set B) \<longrightarrow> user_details_merged A B = Inl KeyError)"
proof (intro conjI impI)
  let ?f = "\<lambda>user_id. and_then (dict_lookup A user_id) (\<lambda>a.
              and_then (dict_lookup B user_id) (\<lambda>b. Inr (merge_dicts a b)))"
  assume h: "distinct (map fst A) \<and> fst ` set A \<subseteq> fst ` set B \<and>
    (\<forall>b\<in>snd ` set B. distinct (map fst b))"
  have "\<exists>y. ?f k = Inr y" if "k \<in> set (map fst A)" for k
  proof -
    from that h have "k \<in> fst ` set A" "k \<in> fst ` set B" by auto
    then obtain a b where "map_of A k = Some a" "map_of B k = Some b"
      by (metis domD dom_map_of_conv_image_fst)
    then show ?thesis by (simp add: merged_one)
  qed
  then obtain rs where rs: "map_err ?f (map fst A) = Inr rs"
    using map_err_total [of "map fst A" ?f] by blast
  then have all2: "list_all2 (\<lambda>x y. ?f x = Inr y) (map fst A) rs"
    by (simp only: map_err_Inr_iff)
  then have len: "length rs = length A"
    by (auto dest: list_all2_lengthD)
  have "\<exists>b. map_of B (fst (A ! i)) = Some b \<and> rs ! i = merge_dicts (snd (A ! i)) b \<and>
             map_of (rs ! i) = map_of (snd (A ! i)) ++ map_of b" if "i < length A" for i
  proof -
    from all2 that have "?f (fst (A ! i)) = Inr (rs ! i)"
      by (auto simp: list_all2_conv_all_nth)
    then obtain a b where ab: "map_of A (fst (A ! i)) = Some a"
        "map_of B (fst (A ! i)) = Some b" "rs ! i = merge_dicts a b"
      by (auto simp only: merged_one)
    from ab(2) have "(fst (A ! i), b) \<in> set B" by (rule map_of_SomeD)
    with h have "distinct (map fst b)" by force
    moreover from h that have "map_of A (fst (A ! i)) = Some (snd (A ! i))"
      by (simp add: map_of_eq_Some_iff)
    ultimately show ?thesis using ab by (simp add: merge_dicts_map_of)
  qed
  with rs len
  show "\<exists>rs. user_details_merged A B = Inr rs \<and> length rs = length A \<and>
         (\<forall>i<length A. \<exists>b. map_of B (fst (A ! i)) = Some b \<and>
             rs ! i = merge_dicts (snd (A ! i)) b \<and>
             map_of (rs ! i) = map_of (snd (A ! i)) ++ map_of b)"
    by (auto simp: user_details_merged_def)
next
  let ?f = "\<lambda>user_id. and_then (dict_lookup A user_id) (\<lambda>a.
              and_then (dict_lookup B user_id) (\<lambda>b. Inr (merge_dicts a b)))"
  assume "\<exists>k\<in>fst ` set A. k \<notin> fst ` set B"
  then obtain k where k: "k \<in> set (map fst A)" "k \<notin> fst ` set B" by auto
  then have "map_of B k = None"
    by (simp add: map_of_eq_None_iff)
  moreover from k obtain a where "map_of A k = Some a"
    by (metis domD dom_map_of_conv_image_fst set_map)
  ultimately have "?f k = Inl KeyError"
    by (simp add: and_then_def dict_lookup_def)
  with k obtain e where e: "map_err ?f (map fst A) = Inl e"
    using map_err_fails [of k "map fst A" ?f KeyError] by blast
  then obtain x where "?f x = Inl e"
    using map_err_Inl by blast
  then have "e = KeyError" by (rule merged_one_error)
  with e show "user_details_merged A B = Inl KeyError"
    by (simp add: user_details_merged_def)
qed

theorem user_details_merged_witness:
  "user_details_merged
     [(''u1'', [(''id'', JStr ''u1''), (''userDisplayName'', JStr ''Ann'')]),
      (''u2'', [(''id'', JStr ''u2''), (''userDisplayName'', JStr ''Bob'')])]
     [(''u2'', [(''accountEnabled'', JBool True), (''id'', JStr ''U2'')]),
      (''u1'', [(''accountEnabled'', JBool False)])]
   = Inr [[(''id'', JStr ''u1''), (''userDisplayName'', JStr ''Ann''), (''accountEnabled'', JBool False)],
          [(''id'', JStr ''U2''), (''userDisplayName'', JStr ''Bob''), (''accountEnabled'', JBool True)]] \<and>
   user_details_merged
     [(''u1'', [(''id'', JStr ''u1'')]), (''u2'', [(''id'', JStr ''u2'')])]
     [(''u1'', [(''accountEnabled'', JBool False)])]
   = Inl KeyError"
proof -
  let ?A = "[(''u1'', [(''id'', JStr ''u1''), (''userDisplayName'', JStr ''Ann'')]),
      (''u2'', [(''id'', JStr ''u2''), (''userDisplayName'', JStr ''Bob'')])]"
  let ?B = "[(''u2'', [(''accountEnabled'', JBool True), (''id'', JStr ''U2'')]),
      (''u1'', [(''accountEnabled'', JBool False)])]"
  let ?A' = "[(''u1'', [(''id'', JStr ''u1'')]), (''u2'', [(''id'', JStr ''u2'')])]"
  let ?B' = "[(''u1'', [(''accountEnabled'', JBool False)])]"
  have pre: "distinct (map fst ?A) \<and> fst ` set ?A \<subseteq> fst ` set ?B \<and>
    (\<forall>b\<in>snd ` set ?B. distinct (map fst b))"
    by simp
  have pre': "\<exists>k\<in>fst ` set ?A'. k \<notin> fst ` set ?B'"
    by simp
  have val: "user_details_merged ?A ?B =
      Inr [[(''id'', JStr ''u1''), (''userDisplayName'', JStr ''Ann''), (''accountEnabled'', JBool False)],
           [(''id'', JStr ''U2''), (''userDisplayName'', JStr ''Bob''), (''accountEnabled'', JBool True)]]"
    by (simp add: user_details_merged_def and_then_def dict_lookup_def merge_dicts_def)
  from user_details_merged_spec [of ?A ?B] pre
  have "\<exists>rs. user_details_merged ?A ?B = Inr rs \<and> length rs = length ?A"
    by blast
  moreover from user_details_merged_spec [of ?A' ?B'] pre'
  have "user_details_merged ?A' ?B' = Inl KeyError"
    by blast
  ultimately show ?thesis
    using val by simp
qed

section \<open>Properties of the fetcher\<close>








section \<open>Properties of the report row builder\<close>










lemma xlsx_row_missing_example:
  "xlsx_row remdups
     [(''id'', JStr ''u1''),
      (''userPrincipalName'', JStr ''jane@tenant.onmicrosoft.com''),
      (''accountEnabled'', JBool True)] = Inl KeyError"
  by code_simp



section \<open>Properties of the domain extractors\<close>

lemma behind_fails:
  "pre = [] \<or> hd pre \<noteq> c \<Longrightarrow> rmatch (Seq (Behind (AnyOf [c])) r) (pre, suf, g) = []"
  by (cases pre) auto

lemma search_from_hit:
  "rmatch r (pre, suf, Map.empty) = st # rest \<Longrightarrow> search_from r pre suf = Some st"
  by (cases suf) simp_all

lemma search_from_none:
  "c \<notin> set s \<Longrightarrow> pre = [] \<or> hd pre \<noteq> c \<Longrightarrow>
     search_from (Seq (Behind (AnyOf [c])) r) pre s = None"
proof (induction s arbitrary: pre)
  case Nil
  then have "rmatch (Seq (Behind (AnyOf [c])) r) (pre, [], Map.empty) = []"
    by (intro behind_fails)
  then show ?case by (simp del: rmatch.simps)
next
  case (Cons x s)
  from Cons.prems have "rmatch (Seq (Behind (AnyOf [c])) r) (pre, x # s, Map.empty) = []"
    by (intro behind_fails) simp
  moreover from Cons.prems have "search_from (Seq (Behind (AnyOf [c])) r) (x # pre) s = None"
    by (intro Cons.IH) auto
  ultimately show ?case by (simp del: rmatch.simps)
qed

lemma search_from_skip:
  "c \<notin> set a \<Longrightarrow> pre = [] \<or> hd pre \<noteq> c \<Longrightarrow>
     search_from (Seq (Behind (AnyOf [c])) r) pre (a @ c # b) =
     search_from (Seq (Behind (AnyOf [c])) r) (c # rev a @ pre) b"
proof (induction a arbitrary: pre)
  case Nil
  from Nil.prems have "rmatch (Seq (Behind (AnyOf [c])) r) (pre, c # b, Map.empty) = []"
    by (intro behind_fails) simp
  then show ?case by (simp del: rmatch.simps)
next
  case (Cons x a)
  from Cons.prems have "rmatch (Seq (Behind (AnyOf [c])) r) (pre, x # a @ c # b, Map.empty) = []"
    by (intro behind_fails) simp
  moreover from Cons.prems
  have "search_from (Seq (Behind (AnyOf [c])) r) (x # pre) (a @ c # b) =
     search_from (Seq (Behind (AnyOf [c])) r) (c # rev a @ x # pre) b"
    by (intro Cons.IH) auto
  ultimately show ?case by (simp del: rmatch.simps)
qed

lemma many_all:
  "\<forall>x\<in>set b. in_cls k x \<Longrightarrow> \<exists>rest. many k pre b = (rev b @ pre, []) # rest"
proof (induction b arbitrary: pre)
  case Nil
  then show ?case by simp
next
  case (Cons x b)
  then obtain rest where "many k (x # pre) b = (rev b @ x # pre, []) # rest"
    by (metis list.set_intros(2))
  with Cons.prems show ?case by simp
qed

lemma tenant_match:
  assumes "newline \<notin> set b"
  shows "\<exists>p rest. rmatch tenant_domain_regex (CHR ''@'' # pre, b, g) =
           (p, [], g(1 \<mapsto> b)) # rest"
proof -
  from assms have "\<forall>x\<in>set b. in_cls any_char x"
    by (auto simp: any_char_def)
  then obtain rest where "many any_char (CHR ''@'' # pre) b = (rev b @ CHR ''@'' # pre, []) # rest"
    using many_all by blast
  then show ?thesis
    by (simp add: tenant_domain_regex_def)
qed

text \<open>
  C5, as amended: for a string without \<open>@\<close>, \<open>get_tenant_domain\<close> returns \<open>"N/A"\<close>; for a
  string with an \<open>@\<close> and no line break after the first one, it returns everything
  after the first \<open>@\<close>.
\<close>

theorem get_tenant_domain_spec:
  "(CHR ''@'' \<notin> set s \<longrightarrow> get_tenant_domain (JStr s) = Inr (JStr ''N/A'')) \<and>
   (CHR ''@'' \<notin> set a \<and> newline \<notin> set b \<longrightarrow>
      get_tenant_domain (JStr (a @ ''@'' @ b)) = Inr (JStr b))"
proof (intro conjI impI)
  assume "CHR ''@'' \<notin> set s"
  then have "search_from tenant_domain_regex [] s = None"
    unfolding tenant_domain_regex_def by (intro search_from_none) simp_all
  then show "get_tenant_domain (JStr s) = Inr (JStr ''N/A'')"
    by (simp add: get_tenant_domain_def findall_first_def re_search_def)
next
  assume h: "CHR ''@'' \<notin> set a \<and> newline \<notin> set b"
  then have "search_from tenant_domain_regex [] (a @ CHR ''@'' # b) =
      search_from tenant_domain_regex (CHR ''@'' # rev a @ []) b"
    unfolding tenant_domain_regex_def by (intro search_from_skip) simp_all
  moreover from h obtain p rest where
    "rmatch tenant_domain_regex (CHR ''@'' # rev a @ [], b, Map.empty) =
       (p, [], [1 \<mapsto> b]) # rest"
    using tenant_match by blast
  then have "search_from tenant_domain_regex (CHR ''@'' # rev a @ []) b = Some (p, [], [1 \<mapsto> b])"
    by (rule search_from_hit)
  ultimately show "get_tenant_domain (JStr (a @ ''@'' @ b)) = Inr (JStr b)"
    by (simp add: get_tenant_domain_def findall_first_def re_search_def group_def)
qed

theorem get_tenant_domain_witness:
  "get_tenant_domain (JStr ''jane'') = Inr (JStr ''N/A'') \<and>
   get_tenant_domain (JStr ''jane@tenant.onmicrosoft.com'') = Inr (JStr ''tenant.onmicrosoft.com'')"
proof -
  have 1: "CHR ''@'' \<notin> set ''jane''" by simp
  have 2: "CHR ''@'' \<notin> set ''jane'' \<and> newline \<notin> set ''tenant.onmicrosoft.com''"
    by (simp add: newline_def)
  from get_tenant_domain_spec [of "''jane''" "''jane''" "''tenant.onmicrosoft.com''"] 1 2
  show ?thesis by simp
qed

text \<open>
  With two \<open>@\<close> the result is not what follows the last one: \<open>findall\<close> reports the
  leftmost match, and \<open>.*\<close> runs to the end of the string.
\<close>

theorem get_tenant_domain_first_at:
  "get_tenant_domain (JStr ''jane@corp@tenant.onmicrosoft.com'') =
     Inr (JStr ''corp@tenant.onmicrosoft.com'') \<and>
   ''corp@tenant.onmicrosoft.com'' \<noteq> ''tenant.onmicrosoft.com''"
  by code_simp

text \<open>
  \<open>.\<close> does not match a line break and \<open>$\<close> only matches at the end of the string or
  before a final line break, so a line break after the first \<open>@\<close> changes the result.
\<close>

lemma get_tenant_domain_lines:
  "get_tenant_domain (JStr (''a@b'' @ [newline] @ ''c'')) = Inr (JStr ''N/A'') \<and>
   get_tenant_domain (JStr (''a@b'' @ [newline])) = Inr (JStr ''b'')"
  by code_simp

text \<open>
  C4: \<open>is_external_domain\<close> should return the text between the last \<open>_\<close> before the
  \<open>#EXT#\<close> marker and the marker. For a guest whose name has an underscore of its own,
  the code returns the text from the first \<open>_\<close> on: the lookbehind is satisfied at the
  leftmost \<open>_\<close> and \<open>.*\<close> is greedy.
\<close>

theorem is_external_domain_first_underscore:
  "is_external_domain (JStr ''john_doe_contoso.com#EXT#@tenant.onmicrosoft.com'') =
     Inr (JStr ''doe_contoso.com'')"
  by code_simp

text \<open>With a single \<open>_\<close>, and without the marker, the code does what C4 says.\<close>

lemma is_external_domain_examples:
  "is_external_domain (JStr ''john_contoso.com#EXT#@tenant.onmicrosoft.com'') =
     Inr (JStr ''contoso.com'') \<and>
   is_external_domain (JStr ''jane@tenant.onmicrosoft.com'') = Inr (JStr ''N/A'')"
  by code_simp

section \<open>Properties of the timestamp rule\<close>

text \<open>
  \<open>strptime\<close> reads back what \<open>isoformat\<close> writes (with the \<open>Z\<close> of the format appended):
  each field's pattern takes the two digits that \<open>%02d\<close> printed, and \<open>int\<close> returns the
  number.
\<close>

lemma dec2: "dec 2 v = [digit_char (v div 10), digit_char v]"
  by (simp add: numeral_2_eq_2)

lemma dec4: "dec 4 y = [digit_char (y div 10 div 10 div 10), digit_char (y div 10 div 10),
    digit_char (y div 10), digit_char y]"
proof -
  have "dec (Suc (Suc (Suc (Suc 0)))) y = [digit_char (y div 10 div 10 div 10),
    digit_char (y div 10 div 10), digit_char (y div 10), digit_char y]"
    by simp
  moreover have "(4::nat) = Suc (Suc (Suc (Suc 0)))" by simp
  ultimately show ?thesis by (simp only:)
qed

lemma digit_table:
  "list_all (\<lambda>k. ''0123456789'' ! k \<noteq> CHR '' '' \<and> digit_val (''0123456789'' ! k) = k \<and>
      in_cls digit (''0123456789'' ! k)) [9, 8, 7, 6, 5, 4, 3, 2, 1, 0]"
  by (simp add: digit_val_def digit_def)

lemma digit_char_props:
  "digit_char n \<noteq> CHR '' '' \<and> digit_val (digit_char n) = n mod 10 \<and> in_cls digit (digit_char n)"
proof -
  have "n mod 10 < 10" by simp
  then have "n mod 10 \<in> set [9, 8, 7, 6, 5, 4, 3, 2, 1, 0]"
    unfolding list.set by (simp only: insert_iff empty_iff) presburger
  with digit_table show ?thesis
    unfolding digit_char_def list_all_iff by blast
qed


lemma upt_60: "rev [0..<60] = [59, 58, 57, 56, 55, 54, 53, 52, 51, 50, 49, 48, 47, 46, 45, 44, 43, 42, 41, 40, 39, 38, 37, 36, 35, 34, 33, 32, 31, 30, 29, 28, 27, 26, 25, 24, 23, 22, 21, 20, 19, 18, 17, 16, 15, 14, 13, 12, 11, 10, 9, 8, 7, 6, 5, 4, 3, 2, 1, 0]"
  by code_simp

lemma rmatch_Y:
  "rmatch (Group 1 rx_Y) (pre, dec 4 y @ rest, g) =
     [(rev (dec 4 y) @ pre, rest, g(1 \<mapsto> dec 4 y))]"
  by (simp add: rx_Y_def dec4 digit_char_props)

lemma rmatch_m_table:
  "list_all (\<lambda>v. \<exists>more. rmatch (Group 2 rx_m) (pre, dec 2 v @ rest, g) =
     (rev (dec 2 v) @ pre, rest, g(2 \<mapsto> dec 2 v)) # more) [12, 11, 10, 9, 8, 7, 6, 5, 4, 3, 2, 1]"
  by (simp add: rx_m_def dec2 digit_char_def digit_def)

lemma rmatch_M_table:
  "list_all (\<lambda>v. \<exists>more. rmatch (Group 5 rx_M) (pre, dec 2 v @ rest, g) =
     (rev (dec 2 v) @ pre, rest, g(5 \<mapsto> dec 2 v)) # more) [59, 58, 57, 56, 55, 54, 53, 52, 51, 50, 49, 48, 47, 46, 45, 44, 43, 42, 41, 40, 39, 38, 37, 36, 35, 34, 33, 32, 31, 30, 29, 28, 27, 26, 25, 24, 23, 22, 21, 20, 19, 18, 17, 16, 15, 14, 13, 12, 11, 10, 9, 8, 7, 6, 5, 4, 3, 2, 1, 0]"
  by (simp add: rx_M_def dec2 digit_char_def digit_def)


lemma rmatch_d_table:
  "list_all (\<lambda>v. \<exists>more. rmatch (Group 3 rx_d) (pre, dec 2 v @ rest, g) =
     (rev (dec 2 v) @ pre, rest, g(3 \<mapsto> dec 2 v)) # more) [31, 30, 29, 28, 27, 26, 25, 24, 23, 22, 21, 20, 19, 18, 17, 16, 15, 14, 13, 12, 11, 10, 9, 8, 7, 6, 5, 4, 3, 2, 1]"
  by (simp add: rx_d_def dec2 digit_char_def digit_def)

lemma rmatch_H_table:
  "list_all (\<lambda>v. \<exists>more. rmatch (Group 4 rx_H) (pre, dec 2 v @ rest, g) =
     (rev (dec 2 v) @ pre, rest, g(4 \<mapsto> dec 2 v)) # more) [23, 22, 21, 20, 19, 18, 17, 16, 15, 14, 13, 12, 11, 10, 9, 8, 7, 6, 5, 4, 3, 2, 1, 0]"
  by (simp add: rx_H_def dec2 digit_char_def digit_def)

lemma rmatch_S_table:
  "list_all (\<lambda>v. \<exists>more. rmatch (Group 6 rx_S) (pre, dec 2 v @ rest, g) =
     (rev (dec 2 v) @ pre, rest, g(6 \<mapsto> dec 2 v)) # more) [59, 58, 57, 56, 55, 54, 53, 52, 51, 50, 49, 48, 47, 46, 45, 44, 43, 42, 41, 40, 39, 38, 37, 36, 35, 34, 33, 32, 31, 30, 29, 28, 27, 26, 25, 24, 23, 22, 21, 20, 19, 18, 17, 16, 15, 14, 13, 12, 11, 10, 9, 8, 7, 6, 5, 4, 3, 2, 1, 0]"
  by (simp add: rx_S_def dec2 digit_char_def digit_def)

lemma below_60: "(v::nat) < 60 \<Longrightarrow> v \<in> set [59, 58, 57, 56, 55, 54, 53, 52, 51, 50, 49, 48, 47, 46, 45, 44, 43, 42, 41, 40, 39, 38, 37, 36, 35, 34, 33, 32, 31, 30, 29, 28, 27, 26, 25, 24, 23, 22, 21, 20, 19, 18, 17, 16, 15, 14, 13, 12, 11, 10, 9, 8, 7, 6, 5, 4, 3, 2, 1, 0]"
proof -
  assume "v < 60"
  then have "v \<in> set (rev [0..<60])" by simp
  then show ?thesis by (simp only: upt_60)
qed

lemma rmatch_m:
  assumes "1 \<le> v" "v \<le> 12"
  shows "\<exists>more. rmatch (Group 2 rx_m) (pre, dec 2 v @ rest, g) =
     (rev (dec 2 v) @ pre, rest, g(2 \<mapsto> dec 2 v)) # more"
proof -
  from assms have "v \<in> set [12, 11, 10, 9, 8, 7, 6, 5, 4, 3, 2, 1]"
    using below_60 [of v] by auto
  with rmatch_m_table show ?thesis
    unfolding list_all_iff by blast
qed

lemma rmatch_d:
  assumes "1 \<le> v" "v \<le> 31"
  shows "\<exists>more. rmatch (Group 3 rx_d) (pre, dec 2 v @ rest, g) =
     (rev (dec 2 v) @ pre, rest, g(3 \<mapsto> dec 2 v)) # more"
proof -
  from assms have "v \<in> set [31, 30, 29, 28, 27, 26, 25, 24, 23, 22, 21, 20, 19, 18, 17, 16, 15, 14, 13, 12, 11, 10, 9, 8, 7, 6, 5, 4, 3, 2, 1]"
    using below_60 [of v] by auto
  with rmatch_d_table show ?thesis
    unfolding list_all_iff by blast
qed

lemma rmatch_H:
  assumes "v \<le> 23"
  shows "\<exists>more. rmatch (Group 4 rx_H) (pre, dec 2 v @ rest, g) =
     (rev (dec 2 v) @ pre, rest, g(4 \<mapsto> dec 2 v)) # more"
proof -
  from assms have "v \<in> set [23, 22, 21, 20, 19, 18, 17, 16, 15, 14, 13, 12, 11, 10, 9, 8, 7, 6, 5, 4, 3, 2, 1, 0]"
    using below_60 [of v] by auto
  with rmatch_H_table show ?thesis
    unfolding list_all_iff by blast
qed

lemma rmatch_M:
  assumes "v \<le> 59"
  shows "\<exists>more. rmatch (Group 5 rx_M) (pre, dec 2 v @ rest, g) =
     (rev (dec 2 v) @ pre, rest, g(5 \<mapsto> dec 2 v)) # more"
proof -
  from assms have "v \<in> set [59, 58, 57, 56, 55, 54, 53, 52, 51, 50, 49, 48, 47, 46, 45, 44, 43, 42, 41, 40, 39, 38, 37, 36, 35, 34, 33, 32, 31, 30, 29, 28, 27, 26, 25, 24, 23, 22, 21, 20, 19, 18, 17, 16, 15, 14, 13, 12, 11, 10, 9, 8, 7, 6, 5, 4, 3, 2, 1, 0]"
    using below_60 [of v] by auto
  with rmatch_M_table show ?thesis
    unfolding list_all_iff by blast
qed

lemma rmatch_S:
  assumes "v \<le> 59"
  shows "\<exists>more. rmatch (Group 6 rx_S) (pre, dec 2 v @ rest, g) =
     (rev (dec 2 v) @ pre, rest, g(6 \<mapsto> dec 2 v)) # more"
proof -
  from assms have "v \<in> set [59, 58, 57, 56, 55, 54, 53, 52, 51, 50, 49, 48, 47, 46, 45, 44, 43, 42, 41, 40, 39, 38, 37, 36, 35, 34, 33, 32, 31, 30, 29, 28, 27, 26, 25, 24, 23, 22, 21, 20, 19, 18, 17, 16, 15, 14, 13, 12, 11, 10, 9, 8, 7, 6, 5, 4, 3, 2, 1, 0]"
    using below_60 [of v] by auto
  with rmatch_S_table show ?thesis
    unfolding list_all_iff by blast
qed


lemma seq_step:
  assumes "\<exists>more. rmatch a st = st' # more" and "\<exists>more. rmatch b st' = fin # more"
  shows "\<exists>more. rmatch (Seq a b) st = fin # more"
proof -
  from assms obtain m1 m2 where "rmatch a st = st' # m1" "rmatch b st' = fin # m2"
    by blast
  then have "rmatch (Seq a b) st = fin # (m2 @ concat (map (rmatch b) m1))"
    by simp
  then show ?thesis by blast
qed

lemma rmatch_Str: "\<exists>more. rmatch (Str w) (pre, w @ rest, g) = (rev w @ pre, rest, g) # more"
  by simp

lemma rmatch_One:
  "c \<in> set cs \<Longrightarrow> \<exists>more. rmatch (One (AnyOf cs)) (pre, [c] @ rest, g) = (c # pre, rest, g) # more"
  by simp

lemma rmatch_Y_first:
  "\<exists>more. rmatch (Group 1 rx_Y) (pre, dec 4 y @ rest, g) =
     (rev (dec 4 y) @ pre, rest, g(1 \<mapsto> dec 4 y)) # more"
  by (simp only: rmatch_Y) blast

lemma strptime_regex_isoformat:
  assumes "valid_datetime d"
  shows "\<exists>p more. rmatch strptime_regex ([], isoformat d @ ''Z'', Map.empty) =
    (p, [], [1 \<mapsto> dec 4 (year d), 2 \<mapsto> dec 2 (month d), 3 \<mapsto> dec 2 (day d),
             4 \<mapsto> dec 2 (hour d), 5 \<mapsto> dec 2 (minute d), 6 \<mapsto> dec 2 (second d)]) # more"
proof -
  from assms have m: "1 \<le> month d" "month d \<le> 12"
    and h: "hour d \<le> 23" and mi: "minute d \<le> 59" and s: "second d \<le> 59"
    and d1: "1 \<le> day d" and d2: "day d \<le> days_in_month (year d) (month d)"
    by (simp_all add: valid_datetime_def)
  from d2 have d3: "day d \<le> 31"
    by (simp add: days_in_month_def split: if_splits)
  have "\<exists>more. rmatch strptime_regex ([],
      dec 4 (year d) @ ''-'' @ dec 2 (month d) @ ''-'' @ dec 2 (day d) @ [CHR ''T''] @
      dec 2 (hour d) @ '':'' @ dec 2 (minute d) @ '':'' @ dec 2 (second d) @ [CHR ''Z''] @ [],
      Map.empty) =
    (CHR ''Z'' # rev (dec 2 (second d)) @ rev '':'' @ rev (dec 2 (minute d)) @ rev '':'' @
       rev (dec 2 (hour d)) @ CHR ''T'' # rev (dec 2 (day d)) @ rev ''-'' @
       rev (dec 2 (month d)) @ rev ''-'' @ rev (dec 4 (year d)) @ [], [],
     [1 \<mapsto> dec 4 (year d), 2 \<mapsto> dec 2 (month d), 3 \<mapsto> dec 2 (day d),
      4 \<mapsto> dec 2 (hour d), 5 \<mapsto> dec 2 (minute d), 6 \<mapsto> dec 2 (second d)]) # more"
    unfolding strptime_regex_def
    apply (rule seq_step, rule rmatch_Y_first)
    apply (rule seq_step, rule rmatch_Str)
    apply (rule seq_step, rule rmatch_m [OF m])
    apply (rule seq_step, rule rmatch_Str)
    apply (rule seq_step, rule rmatch_d [OF d1 d3])
    apply (rule seq_step, rule rmatch_One, simp)
    apply (rule seq_step, rule rmatch_H [OF h])
    apply (rule seq_step, rule rmatch_Str)
    apply (rule seq_step, rule rmatch_M [OF mi])
    apply (rule seq_step, rule rmatch_Str)
    apply (rule seq_step, rule rmatch_S [OF s])
    apply (rule rmatch_One, simp)
    done
  then show ?thesis
    by (simp add: isoformat_def) blast
qed


lemma py_int_dec2: "v < 100 \<Longrightarrow> py_int (dec 2 v) = v"
  by (simp add: py_int_def dec2 digit_char_props)

lemma four_digits:
  "(y::nat) = 10 * a + m1 \<Longrightarrow> a = 10 * b + m2 \<Longrightarrow> b = 10 * c + m3 \<Longrightarrow>
     1000 * c + 100 * m3 + 10 * m2 + m1 = y"
  by simp

lemma py_int_dec4: "y < 10000 \<Longrightarrow> py_int (dec 4 y) = y"
proof -
  assume "y < 10000"
  then have "y div 10 div 10 div 10 mod 10 = y div 10 div 10 div 10"
    by simp
  moreover have "1000 * (y div 10 div 10 div 10) + 100 * (y div 10 div 10 mod 10) +
      10 * (y div 10 mod 10) + y mod 10 = y"
    by (rule four_digits) simp_all
  ultimately have "1000 * (y div 10 div 10 div 10 mod 10) + 100 * (y div 10 div 10 mod 10) +
      10 * (y div 10 mod 10) + y mod 10 = y"
    by (simp only:)
  then show ?thesis
    by (simp add: py_int_def dec4 digit_char_props)
qed

lemma strptime_isoformat:
  assumes "valid_datetime d"
  shows "strptime (isoformat d @ ''Z'') = Inr d"
proof -
  from strptime_regex_isoformat [OF assms] obtain p more where
    "rmatch strptime_regex ([], isoformat d @ ''Z'', Map.empty) =
    (p, [], [1 \<mapsto> dec 4 (year d), 2 \<mapsto> dec 2 (month d), 3 \<mapsto> dec 2 (day d),
             4 \<mapsto> dec 2 (hour d), 5 \<mapsto> dec 2 (minute d), 6 \<mapsto> dec 2 (second d)]) # more"
    by blast
  then have "strptime (isoformat d @ ''Z'') =
    datetime_new (py_int (dec 4 (year d))) (py_int (dec 2 (month d))) (py_int (dec 2 (day d)))
      (py_int (dec 2 (hour d))) (py_int (dec 2 (minute d))) (py_int (dec 2 (second d)))"
    by (simp add: strptime_def re_match_def group_def)
  moreover from assms have "year d < 10000" "month d < 100" "day d < 100" "hour d < 100"
    "minute d < 100" "second d < 100"
    by (auto simp: valid_datetime_def days_in_month_def split: if_splits)
  moreover have "\<lparr>year = year d, month = month d, day = day d, hour = hour d,
      minute = minute d, second = second d\<rparr> = d"
    by (cases d) simp
  ultimately show ?thesis
    using assms by (simp add: py_int_dec2 py_int_dec4 datetime_new_def Let_def)
qed


text \<open>
  C2: \<open>is_datetime\<close> returns \<open>"N/A"\<close> for \<open>None\<close> and for the empty string. A well-formed
  timestamp is the text \<open>YYYY-MM-DDTHH:MM:SSZ\<close> of a date and time \<open>d\<close> that exists
  (\<open>isoformat d\<close> followed by \<open>Z\<close>, for a \<open>d\<close> the \<open>datetime\<close> type accepts): when the year of
  \<open>d\<close> is 1999 or earlier the result is \<open>"Never"\<close>, otherwise it is \<open>isoformat d\<close>, the ISO
  text of the same date and time. So \<open>1998-01-01T00:00:00Z\<close> gives \<open>"Never"\<close> and
  \<open>2023-05-01T12:00:00Z\<close> gives \<open>2023-05-01T12:00:00\<close>.
\<close>

theorem is_datetime_spec:
  "is_datetime JNull = Inr (JStr ''N/A'') \<and>
   is_datetime (JStr []) = Inr (JStr ''N/A'') \<and>
   (valid_datetime d \<and> year d \<le> 1999 \<longrightarrow>
      is_datetime (JStr (isoformat d @ ''Z'')) = Inr (JStr ''Never'')) \<and>
   (valid_datetime d \<and> 1999 < year d \<longrightarrow>
      is_datetime (JStr (isoformat d @ ''Z'')) = Inr (JStr (isoformat d))) \<and>
   is_datetime (JStr ''1998-01-01T00:00:00Z'') = Inr (JStr ''Never'') \<and>
   is_datetime (JStr ''2023-05-01T12:00:00Z'') = Inr (JStr ''2023-05-01T12:00:00'')"
proof -
  have parsed: "is_datetime (JStr (isoformat d @ ''Z'')) =
      Inr (JStr (if 1999 < year d then isoformat d else ''Never''))" if "valid_datetime d"
    using strptime_isoformat [OF that] by (simp add: is_datetime_str)
  have "is_datetime (JStr ''1998-01-01T00:00:00Z'') = Inr (JStr ''Never'')"
    by code_simp
  moreover have "is_datetime (JStr ''2023-05-01T12:00:00Z'') = Inr (JStr ''2023-05-01T12:00:00'')"
    by code_simp
  ultimately show ?thesis
    using parsed by (simp add: is_datetime_def)
qed

lemma leap_day_valid:
  "valid_datetime \<lparr>year = 2024, month = 2, day = 29, hour = 23, minute = 59, second = 59\<rparr> \<and>
   isoformat \<lparr>year = 2024, month = 2, day = 29, hour = 23, minute = 59, second = 59\<rparr> =
     ''2024-02-29T23:59:59''"
  by code_simp

lemma last_year_valid:
  "valid_datetime \<lparr>year = 1999, month = 12, day = 31, hour = 0, minute = 0, second = 0\<rparr> \<and>
   isoformat \<lparr>year = 1999, month = 12, day = 31, hour = 0, minute = 0, second = 0\<rparr> =
     ''1999-12-31T00:00:00''"
  by code_simp

theorem is_datetime_spec_witness:
  "is_datetime (JStr ''2024-02-29T23:59:59Z'') = Inr (JStr ''2024-02-29T23:59:59'') \<and>
   is_datetime (JStr ''1999-12-31T00:00:00Z'') = Inr (JStr ''Never'')"
  using is_datetime_spec [of "\<lparr>year = 2024, month = 2, day = 29, hour = 23, minute = 59, second = 59\<rparr>"]
    is_datetime_spec [of "\<lparr>year = 1999, month = 12, day = 31, hour = 0, minute = 0, second = 0\<rparr>"]
    leap_day_valid last_year_valid
  by simp

end
